theory Spec2Isabelle
  imports Complex_Main "HOL-Library.Sublist" "HOL-Library.List_Lexorder"
begin

section \<open>Python strings\<close>

text \<open>
  A Python \<open>str\<close> is a sequence of Unicode code points and \<open>len\<close> counts code points,
  so a string is a list of code points here. \<open>lit\<close> turns an ASCII literal of the source
  into that representation.
\<close>

type_synonym codepoint = nat
type_synonym str = "codepoint list"

definition lit :: "string \<Rightarrow> str" where
  "lit s = map of_char s"

text \<open>
  \<open>str.isspace\<close> for one code point: the characters that \<open>str.strip()\<close> without an
  argument removes (CPython's table of Unicode whitespace).
\<close>

definition isspace :: "codepoint \<Rightarrow> bool" where
  "isspace c =
     ((0x09 \<le> c \<and> c \<le> 0x0D) \<or> (0x1C \<le> c \<and> c \<le> 0x20) \<or> c = 0x85 \<or> c = 0xA0
      \<or> c = 0x1680 \<or> (0x2000 \<le> c \<and> c \<le> 0x200A) \<or> c = 0x2028 \<or> c = 0x2029
      \<or> c = 0x202F \<or> c = 0x205F \<or> c = 0x3000)"

definition lstrip :: "str \<Rightarrow> str" where
  "lstrip s = dropWhile isspace s"

definition rstrip :: "str \<Rightarrow> str" where
  "rstrip s = rev (dropWhile isspace (rev s))"

definition strip :: "str \<Rightarrow> str" where
  "strip s = rstrip (lstrip s)"

text \<open>
  The line boundaries of \<open>str.splitlines()\<close>: \<open>\n\<close>, \<open>\r\<close>, \<open>\r\n\<close>, \<open>\v\<close>, \<open>\f\<close>,
  \<open>\x1c\<close>, \<open>\x1d\<close>, \<open>\x1e\<close>, \<open>\x85\<close>, U+2028 and U+2029.
\<close>

definition is_linebreak :: "codepoint \<Rightarrow> bool" where
  "is_linebreak c =
     (c = 0x0A \<or> c = 0x0D \<or> c = 0x0B \<or> c = 0x0C \<or> c = 0x1C \<or> c = 0x1D \<or> c = 0x1E
      \<or> c = 0x85 \<or> c = 0x2028 \<or> c = 0x2029)"

text \<open>
  \<open>splitlines_from cur s\<close>: the lines of \<open>s\<close>, where \<open>cur\<close> is the part of the current
  line already read. A boundary ends the current line (also an empty one); \<open>\r\n\<close> is one
  boundary; at the end of the string a non-empty rest is the last line.
\<close>

fun splitlines_from :: "str \<Rightarrow> str \<Rightarrow> str list" where
  "splitlines_from cur [] = (if cur = [] then [] else [cur])"
| "splitlines_from cur (c # cs) =
     (if c = 0x0D then
        (case cs of
           [] \<Rightarrow> [cur]
         | d # ds \<Rightarrow> if d = 0x0A then cur # splitlines_from [] ds
                     else cur # splitlines_from [] cs)
      else if is_linebreak c then cur # splitlines_from [] cs
      else splitlines_from (cur @ [c]) cs)"

definition splitlines :: "str \<Rightarrow> str list" where
  "splitlines s = splitlines_from [] s"

text \<open>\<open>sep.join(parts)\<close>.\<close>

fun join :: "str \<Rightarrow> str list \<Rightarrow> str" where
  "join sep [] = []"
| "join sep [p] = p"
| "join sep (p # q # ps) = p @ sep @ join sep (q # ps)"

text \<open>\<open>sub in s\<close> for strings: \<open>sub\<close> occurs in \<open>s\<close> as a contiguous substring.\<close>

fun contains :: "str \<Rightarrow> str \<Rightarrow> bool" where
  "contains [] sub = (sub = [])"
| "contains (c # cs) sub = (prefix sub (c # cs) \<or> contains cs sub)"

text \<open>\<open>s.replace(old, new)\<close> for a pattern \<open>old\<close> of one code point.\<close>

definition replace1 :: "str \<Rightarrow> codepoint \<Rightarrow> str \<Rightarrow> str" where
  "replace1 s old new = concat (map (\<lambda>c. if c = old then new else [c]) s)"

text \<open>
  \<open>str.lower()\<close> follows the Unicode case mappings, a table outside this repository.
  The functions that call it take it as the parameter \<open>lower\<close>, and what is proved about
  them holds for every such function. \<open>ascii_lower\<close> is \<open>str.lower\<close> on ASCII strings and
  serves where a concrete run is evaluated.
\<close>

definition ascii_lower :: "str \<Rightarrow> str" where
  "ascii_lower s = map (\<lambda>c. if 0x41 \<le> c \<and> c \<le> 0x5A then c + 0x20 else c) s"

section \<open>Identifier deduplication\<close>

text \<open>
  \<open>PaperSummarizer._remove_duplicates\<close>: \<open>list(set(new_arxiv_ids) - set(self._old_arxiv_ids))\<close>.
  The state \<open>self._old_arxiv_ids\<close> is the first argument. Python enumerates the resulting
  set in an order that depends on the hashes; the model enumerates it in lexicographic
  order, and nothing below depends on the order.
\<close>

definition remove_duplicates :: "str list \<Rightarrow> str list \<Rightarrow> str list" where
  "remove_duplicates old_arxiv_ids new_arxiv_ids =
     sorted_list_of_set (set new_arxiv_ids - set old_arxiv_ids)"

section \<open>Body text extraction\<close>

text \<open>
  \<open>PaperSummarizer._is_valid_body_line(line, min_length)\<close>, with the checks in the
  order of the source: an \<open>@\<close>, then the keywords against \<open>line.lower()\<close>, then the
  length, then the full stop.
\<close>

definition body_line_keywords :: "str list" where
  "body_line_keywords =
     [lit ''university'', lit ''lab'', lit ''department'', lit ''institute'',
      lit ''corresponding author'']"

definition is_valid_body_line :: "(str \<Rightarrow> str) \<Rightarrow> str \<Rightarrow> int \<Rightarrow> bool" where
  "is_valid_body_line lower line min_length =
     (if contains line (lit ''@'') then False
      else if list_ex (\<lambda>kw. contains (lower line) kw) body_line_keywords then False
      else if int (length line) < min_length then False
      else (if \<not> contains line (lit ''.'') then False else True))"

text \<open>
  The document that \<open>BeautifulSoup(response.text, "html.parser")\<close> returns: a forest of
  text nodes and elements (tag name, children). Fetching and parsing belong to the
  libraries; the model starts from the parsed document.
\<close>

datatype node = Text str | Element str "node list"

text \<open>\<open>soup.body\<close>: the first element named \<open>body\<close> in document order, if any.\<close>

fun find_tag :: "str \<Rightarrow> node list \<Rightarrow> node option" where
  "find_tag name [] = None"
| "find_tag name (Text s # ns) = find_tag name ns"
| "find_tag name (Element t cs # ns) =
     (if t = name then Some (Element t cs)
      else (case find_tag name cs of
              Some e \<Rightarrow> Some e
            | None \<Rightarrow> find_tag name ns))"

text \<open>
  \<open>for tag in body.find_all([...]): tag.decompose()\<close>: every descendant element with
  one of the names leaves the tree, with all it contains.
\<close>

fun decompose_all :: "str list \<Rightarrow> node list \<Rightarrow> node list" where
  "decompose_all names [] = []"
| "decompose_all names (Text s # ns) = Text s # decompose_all names ns"
| "decompose_all names (Element t cs # ns) =
     (if t \<in> set names then decompose_all names ns
      else Element t (decompose_all names cs) # decompose_all names ns)"

text \<open>The text nodes below a list of nodes, in document order.\<close>

fun all_strings :: "node list \<Rightarrow> str list" where
  "all_strings [] = []"
| "all_strings (Text s # ns) = s # all_strings ns"
| "all_strings (Element t cs # ns) = all_strings cs @ all_strings ns"

text \<open>
  \<open>get_text(separator, strip=True)\<close>: every text node stripped, the empty ones dropped,
  the rest joined by the separator.
\<close>

definition get_text :: "str \<Rightarrow> node list \<Rightarrow> str" where
  "get_text separator ns =
     join separator (filter (\<lambda>s. s \<noteq> []) (map strip (all_strings ns)))"

definition removed_tags :: "str list" where
  "removed_tags = [lit ''header'', lit ''nav'', lit ''footer'', lit ''script'', lit ''style'']"

definition full_text :: "node list \<Rightarrow> str" where
  "full_text soup =
     (case find_tag (lit ''body'') soup of
        Some (Element t cs) \<Rightarrow> get_text (lit [CHR 0x0A]) (decompose_all removed_tags cs)
      | _ \<Rightarrow> [])"

text \<open>
  The first loop of \<open>_extract_body_text\<close>: \<open>scan_start lower m i lines\<close> runs the loop
  from index \<open>i\<close> on; \<open>break\<close> returns the index, and a loop that ends without it leaves
  \<open>start_index = 0\<close>.
\<close>

fun scan_start :: "(str \<Rightarrow> str) \<Rightarrow> int \<Rightarrow> nat \<Rightarrow> str list \<Rightarrow> nat" where
  "scan_start lower min_line_length i [] = 0"
| "scan_start lower min_line_length i (line # rest) =
     (let clean_line = strip line in
      if int (length clean_line) < min_line_length
        then scan_start lower min_line_length (Suc i) rest
      else if is_valid_body_line lower clean_line 100 then i
      else scan_start lower min_line_length (Suc i) rest)"

text \<open>The second loop: the lines kept, each stripped, cleaned of U+00C2 and stripped again.\<close>

fun filtered_lines :: "int \<Rightarrow> str list \<Rightarrow> str list" where
  "filtered_lines min_line_length [] = []"
| "filtered_lines min_line_length (line # rest) =
     (if int (length (strip line)) \<ge> min_line_length
      then strip (replace1 (strip line) 0xC2 (lit '' '')) # filtered_lines min_line_length rest
      else filtered_lines min_line_length rest)"

definition body_lines :: "(str \<Rightarrow> str) \<Rightarrow> int \<Rightarrow> str list \<Rightarrow> str list" where
  "body_lines lower min_line_length lines =
     drop (scan_start lower min_line_length 0 lines) lines"

text \<open>
  \<open>_extract_body_text\<close> from the parsed document on; \<open>min_line_length\<close> is 40 unless the
  caller says otherwise.
\<close>

definition extract_body_text :: "(str \<Rightarrow> str) \<Rightarrow> node list \<Rightarrow> int \<Rightarrow> str" where
  "extract_body_text lower soup min_line_length =
     (let lines = splitlines (full_text soup) in
      join (lit [CHR 0x0A])
        (filtered_lines min_line_length (body_lines lower min_line_length lines)))"

text \<open>Two lines of a paper as \<open>splitlines\<close> delivers them: a title and a sentence.\<close>

definition example_title :: str where
  "example_title = lit ''Training Language Models With Far Fewer Examples''"

definition example_sentence :: str where
  "example_sentence =
     lit ''We study how large language models can be trained with far fewer examples than previously thought possible.''"

text \<open>
  A page whose only paragraph starts with the mojibake of a no-break space (U+00C2,
  U+00A0), and a page whose body holds nothing but navigation and scripts.
\<close>

definition example_mojibake_soup :: "node list" where
  "example_mojibake_soup =
     [Element (lit ''html'')
        [Element (lit ''body'')
           [Element (lit ''p'')
              [Text ([0xC2, 0xA0] @ lit ''Results are reported in the next table'')]]]]"


section \<open>Exceptions, dates and files\<close>

text \<open>The exceptions that the modelled code raises or handles; all derive from \<open>Exception\<close>.\<close>

datatype exn =
    FileNotFoundError str
  | NameError string
  | AttributeError string
  | OtherError string

text \<open>
  A \<open>datetime.date\<close> is its proleptic Gregorian ordinal (\<open>date.toordinal()\<close>: 1 is the
  first of January of year 1), so that \<open>d - timedelta(days=i)\<close> is \<open>d - i\<close>.
  \<open>ord2ymd\<close> follows \<open>datetime._ord2ymd\<close>.
\<close>

type_synonym date = int

definition days_before_month :: "int list" where
  "days_before_month = [-1, 0, 31, 59, 90, 120, 151, 181, 212, 243, 273, 304, 334]"

definition days_in_month :: "int list" where
  "days_in_month = [-1, 31, 28, 31, 30, 31, 30, 31, 31, 30, 31, 30, 31]"

definition ord2ymd :: "date \<Rightarrow> int \<times> int \<times> int" where
  "ord2ymd ordinal =
     (let n = ordinal - 1;
          n400 = n div 146097; n = n mod 146097;
          n100 = n div 36524; n = n mod 36524;
          n4 = n div 1461; n = n mod 1461;
          n1 = n div 365; n = n mod 365;
          year = n400 * 400 + 1 + n100 * 100 + n4 * 4 + n1
      in if n1 = 4 \<or> n100 = 4 then (year - 1, 12, 31)
         else
           (let leapyear = (n1 = 3 \<and> (n4 \<noteq> 24 \<or> n100 = 3));
                month = (n + 50) div 32;
                preceding = days_before_month ! nat month
                            + (if month > 2 \<and> leapyear then 1 else 0)
            in if preceding > n
               then (let month' = month - 1;
                         preceding' = preceding
                           - (days_in_month ! nat month'
                              + (if month' = 2 \<and> leapyear then 1 else 0))
                     in (year, month', n - preceding' + 1))
               else (year, month, n - preceding + 1)))"

definition digit :: "int \<Rightarrow> codepoint" where
  "digit n = 0x30 + nat (n mod 10)"

text \<open>\<open>d.strftime("%Y-%m-%d")\<close>, for the years of four digits.\<close>

definition strftime_ymd :: "date \<Rightarrow> str" where
  "strftime_ymd d =
     (case ord2ymd d of
        (y, m, dd) \<Rightarrow>
          [digit (y div 1000), digit (y div 100), digit (y div 10), digit y] @ lit ''-''
          @ [digit (m div 10), digit m] @ lit ''-'' @ [digit (dd div 10), digit dd])"

text \<open>
  The process environment, and \<open>os.environ.get("OUTPUT_DIR", "./output")\<close>.
\<close>

type_synonym env = "str \<rightharpoonup> str"

definition output_dir :: "env \<Rightarrow> str" where
  "output_dir environ =
     (case environ (lit ''OUTPUT_DIR'') of Some d \<Rightarrow> d | None \<Rightarrow> lit ''./output'')"

text \<open>\<open>os.path.join(a, b)\<close> of \<open>posixpath\<close>.\<close>

definition path_join :: "str \<Rightarrow> str \<Rightarrow> str" where
  "path_join a b =
     (if prefix (lit ''/'') b then b
      else if a = [] \<or> last a = 0x2F then a @ b
      else a @ lit ''/'' @ b)"

text \<open>
  The file store: the regular files by path, with the text each holds. Opening an absent
  file for reading raises \<open>FileNotFoundError\<close>; a file opened for reading in text mode
  delivers \<open>\r\n\<close> and \<open>\r\<close> as \<open>\n\<close>. Opening for writing truncates; \<open>os.makedirs\<close> has
  made the directories. Failures of the operating system other than the absent file
  (permissions, a directory in place of a file, text that UTF-8 cannot encode) are not part
  of the model.
\<close>

type_synonym fs = "str \<rightharpoonup> str"

fun universal_newlines :: "str \<Rightarrow> str" where
  "universal_newlines [] = []"
| "universal_newlines (c # cs) =
     (if c = 0x0D then
        (case cs of
           [] \<Rightarrow> [0x0A]
         | d # ds \<Rightarrow> if d = 0x0A then 0x0A # universal_newlines ds
                     else 0x0A # universal_newlines cs)
      else c # universal_newlines cs)"

definition read_text :: "fs \<Rightarrow> str \<Rightarrow> exn + str" where
  "read_text files file_path =
     (case files file_path of
        None \<Rightarrow> Inl (FileNotFoundError file_path)
      | Some content \<Rightarrow> Inr (universal_newlines content))"

definition write_text :: "fs \<Rightarrow> str \<Rightarrow> str \<Rightarrow> fs" where
  "write_text files file_path content = files(file_path \<mapsto> content)"

section \<open>Identifier history\<close>

text \<open>\<open>Config.arxiv_ids_s3_key_format.format(date=...)\<close>.\<close>

definition arxiv_ids_key :: "date \<Rightarrow> str" where
  "arxiv_ids_key d = lit ''paper_summarizer/arxiv_ids-'' @ strftime_ymd d @ lit ''.txt''"

text \<open>
  \<open>PaperSummarizer._save_arxiv_ids\<close>, with the environment, \<open>date.today()\<close> and the file
  store as arguments; it returns the file store it leaves.
\<close>

definition save_arxiv_ids :: "env \<Rightarrow> date \<Rightarrow> fs \<Rightarrow> str list \<Rightarrow> fs" where
  "save_arxiv_ids environ today files new_arxiv_ids =
     write_text files (path_join (output_dir environ) (arxiv_ids_key today))
       (join (lit [CHR 0x0A]) new_arxiv_ids)"

text \<open>
  \<open>PaperSummarizer._load_old_arxiv_ids\<close>. \<open>load_days\<close> is the loop over the remaining
  values of \<open>i\<close>, with \<open>arxiv_ids\<close> as collected so far: \<open>FileNotFoundError\<close> is caught and
  the loop continues, any other exception leaves the function.
\<close>

definition last_n_arxiv_ids_path :: "env \<Rightarrow> date \<Rightarrow> nat \<Rightarrow> str" where
  "last_n_arxiv_ids_path environ today i =
     path_join (output_dir environ) (arxiv_ids_key (today - int i))"

fun load_days :: "env \<Rightarrow> date \<Rightarrow> fs \<Rightarrow> nat list \<Rightarrow> str list \<Rightarrow> exn + str list" where
  "load_days environ today files [] arxiv_ids = Inr arxiv_ids"
| "load_days environ today files (i # rest) arxiv_ids =
     (case read_text files (last_n_arxiv_ids_path environ today i) of
        Inr content \<Rightarrow> load_days environ today files rest (arxiv_ids @ splitlines content)
      | Inl (FileNotFoundError p) \<Rightarrow> load_days environ today files rest arxiv_ids
      | Inl e \<Rightarrow> Inl e)"

definition load_old_arxiv_ids :: "env \<Rightarrow> date \<Rightarrow> fs \<Rightarrow> exn + str list" where
  "load_old_arxiv_ids environ today files = load_days environ today files [1..<8] []"

section \<open>Digest writers\<close>

text \<open>
  \<open>PaperSummarizer._store_summaries\<close> and \<open>RedditExplorer._store_summaries\<close>: each joins
  the summaries with its separator and writes the file of the day.
\<close>

definition paper_summary_key :: "date \<Rightarrow> str" where
  "paper_summary_key d = lit ''paper_summarizer/'' @ strftime_ymd d @ lit ''.md''"

definition reddit_summary_key :: "date \<Rightarrow> str" where
  "reddit_summary_key d = lit ''reddit_explorer/'' @ strftime_ymd d @ lit ''.md''"

definition paper_separator :: str where
  "paper_separator = [0x0A, 0x0A] @ lit ''---'' @ [0x0A, 0x0A]"

definition reddit_separator :: str where
  "reddit_separator = [0x0A] @ lit ''---'' @ [0x0A]"

definition paper_store_summaries :: "env \<Rightarrow> date \<Rightarrow> fs \<Rightarrow> str list \<Rightarrow> fs" where
  "paper_store_summaries environ today files summaries =
     (let content = join paper_separator summaries
      in write_text files (path_join (output_dir environ) (paper_summary_key today)) content)"

definition reddit_store_summaries :: "env \<Rightarrow> date \<Rightarrow> fs \<Rightarrow> str list \<Rightarrow> fs" where
  "reddit_store_summaries environ today files summaries =
     write_text files (path_join (output_dir environ) (reddit_summary_key today))
       (join reddit_separator summaries)"

section \<open>Fan-out over a worker pool\<close>

text \<open>
  \<open>executor.map(fn, items)\<close> of a \<open>ThreadPoolExecutor\<close> submits one call per item, in
  order, and remembers the futures by position. The workers complete the calls in an
  order of their own: the schedule lists the positions in order of completion.
  A call either returns a value or raises. The iterator that \<open>list(tqdm(...))\<close> consumes
  then asks the futures for their results in the order of submission: it raises the
  exception of the first failed call it meets, and it waits for ever (\<open>None\<close>) for a call
  that is never completed.
\<close>

definition complete_call ::
  "('a \<Rightarrow> exn + 'b) \<Rightarrow> 'a list \<Rightarrow> nat \<Rightarrow> (nat \<rightharpoonup> exn + 'b) \<Rightarrow> (nat \<rightharpoonup> exn + 'b)" where
  "complete_call fn items i futures =
     (if i < length items then futures(i \<mapsto> fn (items ! i)) else futures)"

definition run_workers ::
  "('a \<Rightarrow> exn + 'b) \<Rightarrow> 'a list \<Rightarrow> nat list \<Rightarrow> (nat \<rightharpoonup> exn + 'b)" where
  "run_workers fn items schedule = fold (complete_call fn items) schedule Map.empty"

fun results_in_order :: "(nat \<rightharpoonup> exn + 'b) \<Rightarrow> nat list \<Rightarrow> (exn + 'b list) option" where
  "results_in_order futures [] = Some (Inr [])"
| "results_in_order futures (i # rest) =
     (case futures i of
        None \<Rightarrow> None
      | Some (Inl e) \<Rightarrow> Some (Inl e)
      | Some (Inr v) \<Rightarrow>
          (case results_in_order futures rest of
             None \<Rightarrow> None
           | Some (Inl e) \<Rightarrow> Some (Inl e)
           | Some (Inr vs) \<Rightarrow> Some (Inr (v # vs))))"

definition executor_map ::
  "('a \<Rightarrow> exn + 'b) \<Rightarrow> 'a list \<Rightarrow> nat list \<Rightarrow> (exn + 'b list) option" where
  "executor_map fn items schedule =
     results_in_order (run_workers fn items schedule) [0..<length items]"

text \<open>
  \<open>PaperSummarizer.__call__\<close>: the identifiers retrieved are deduplicated against
  \<open>self._old_arxiv_ids\<close>, summarised by the pool, saved, and the summaries stored. An
  exception of a worker leaves the call before anything is written.
\<close>

definition paper_summarizer_call ::
  "env \<Rightarrow> date \<Rightarrow> str list \<Rightarrow> str list \<Rightarrow> (str \<Rightarrow> exn + str) \<Rightarrow> nat list \<Rightarrow> fs
     \<Rightarrow> (exn + fs) option" where
  "paper_summarizer_call environ today old_arxiv_ids retrieved process_paper schedule files =
     (let new_arxiv_ids = remove_duplicates old_arxiv_ids retrieved
      in case executor_map process_paper new_arxiv_ids schedule of
           None \<Rightarrow> None
         | Some (Inl e) \<Rightarrow> Some (Inl e)
         | Some (Inr markdowns) \<Rightarrow>
             Some (Inr (paper_store_summaries environ today
                          (save_arxiv_ids environ today files new_arxiv_ids) markdowns)))"

section \<open>Entry points\<close>

text \<open>
  The names bound at module level in \<open>paper_summarizer.py\<close> and \<open>reddit_explorer.py\<close>
  (imports, classes, functions), and the built-in names the handlers use. A name that is
  neither raises \<open>NameError\<close> where it is evaluated.
\<close>

definition paper_summarizer_names :: "string list" where
  "paper_summarizer_names =
     [''concurrent'', ''inspect'', ''os'', ''re'', ''dataclass'', ''field'', ''date'',
      ''timedelta'', ''Any'', ''arxiv'', ''requests'', ''BeautifulSoup'', ''tqdm'',
      ''create_client'', ''Config'', ''remove_tex_backticks'',
      ''remove_outer_markdown_markers'', ''remove_outer_singlequotes'', ''PaperInfo'',
      ''PaperIdRetriever'', ''PaperSummarizer'', ''lambda_handler'']"

definition reddit_explorer_names :: "string list" where
  "reddit_explorer_names =
     [''inspect'', ''os'', ''tomllib'', ''dataclass'', ''field'', ''date'', ''Any'',
      ''Literal'', ''praw'', ''create_client'', ''_MARKDOWN_FORMAT'', ''Config'',
      ''RedditPost'', ''RedditExplorer'', ''lambda_handler'']"

definition builtin_names :: "string list" where
  "builtin_names = [''print'', ''Exception'', ''len'', ''list'', ''set'', ''open'', ''range'',
                    ''enumerate'', ''next'', ''getattr'', ''hasattr'']"

definition lookup :: "string list \<Rightarrow> string \<Rightarrow> exn + unit" where
  "lookup names n =
     (if n \<in> set names \<or> n \<in> set builtin_names then Inr () else Inl (NameError n))"

text \<open>
  The event is a dictionary; only its entry \<open>source\<close> is read and compared with a string.
  \<open>run\<close> is the outcome of constructing the summarizer (or explorer) and calling it.
  The result is the \<open>statusCode\<close> returned, or the exception that leaves the handler.
  \<open>paper_summarizer.lambda_handler\<close>:
\<close>

type_synonym event = "str \<rightharpoonup> str"

definition paper_lambda_handler :: "event \<Rightarrow> exn + unit \<Rightarrow> exn + int" where
  "paper_lambda_handler event run =
     (case lookup paper_summarizer_names ''pprint'' of
        Inl e \<Rightarrow> Inl e
      | Inr _ \<Rightarrow>
          (case (if event (lit ''source'') = Some (lit ''aws.events'')
                 then (case lookup paper_summarizer_names ''PaperSummarizer'' of
                         Inl e \<Rightarrow> Inl e
                       | Inr _ \<Rightarrow> run)
                 else Inr ()) of
             Inr _ \<Rightarrow> Inr 200
           | Inl e \<Rightarrow>
               (case lookup paper_summarizer_names ''pprint'' of
                  Inl e' \<Rightarrow> Inl e'
                | Inr _ \<Rightarrow>
                    (case lookup paper_summarizer_names ''traceback'' of
                       Inl e' \<Rightarrow> Inl e'
                     | Inr _ \<Rightarrow> Inr 500))))"

text \<open>\<open>reddit_explorer.lambda_handler\<close>:\<close>

definition reddit_lambda_handler :: "event \<Rightarrow> exn + unit \<Rightarrow> exn + int" where
  "reddit_lambda_handler event run =
     (case lookup reddit_explorer_names ''print'' of
        Inl e \<Rightarrow> Inl e
      | Inr _ \<Rightarrow>
          (case (if event (lit ''source'') = Some (lit ''aws.events'')
                 then (case lookup reddit_explorer_names ''RedditExplorer'' of
                         Inl e \<Rightarrow> Inl e
                       | Inr _ \<Rightarrow> run)
                 else Inr ()) of
             Inr _ \<Rightarrow> Inr 200
           | Inl e \<Rightarrow>
               (case lookup reddit_explorer_names ''print'' of
                  Inl e' \<Rightarrow> Inl e'
                | Inr _ \<Rightarrow>
                    (case lookup reddit_explorer_names ''traceback'' of
                       Inl e' \<Rightarrow> Inl e'
                     | Inr _ \<Rightarrow> Inr 500))))"

section \<open>Hot posts of a subreddit\<close>

text \<open>
  A \<open>praw\<close> submission, with the attributes that the explorer reads. An attribute that a
  submission may lack is \<open>Missing\<close> or \<open>Present\<close>; \<open>author\<close> is \<open>None\<close> for a deleted
  account; the upvote ratio is a rational number.
\<close>

datatype 'a attr = Missing | Present 'a

datatype redditor = Redditor (redditor_name: str)

record submission =
  sub_id :: str
  sub_title :: str
  sub_url :: "str option"
  sub_ups :: int
  sub_selftext :: str
  sub_thumbnail :: str
  sub_permalink :: str
  sub_author :: "redditor option"
  sub_upvote_ratio :: rat
  post_hint :: "str attr"
  is_gallery :: "bool attr"
  is_video :: "bool attr"
  poll_data :: "unit attr"
  crosspost_parent :: "unit attr"
  is_self :: bool
  media :: "(str \<rightharpoonup> (str \<rightharpoonup> str)) option attr"
  secure_media :: "(str \<rightharpoonup> (str \<rightharpoonup> str)) option attr"

datatype post_type = Image | Gallery | Video | Poll | Crosspost | TextPost | Link

text \<open>
  The dataclass \<open>RedditPost\<close>; \<open>comments\<close> and \<open>summary\<close> are not set by the constructor.
\<close>

record reddit_post =
  rp_type :: post_type
  rp_id :: str
  rp_title :: str
  rp_url :: "str option"
  rp_upvotes :: int
  rp_text :: str
  rp_permalink :: str
  rp_comments :: "(str \<times> int) list option"
  rp_summary :: "str option"
  rp_thumbnail :: str

definition reddit_top_posts_limit :: nat where
  "reddit_top_posts_limit = 10"

definition judge_post_type :: "submission \<Rightarrow> post_type" where
  "judge_post_type post =
     (if (case post_hint post of Present h \<Rightarrow> h | Missing \<Rightarrow> []) = lit ''image'' then Image
      else if (case is_gallery post of Present b \<Rightarrow> b | Missing \<Rightarrow> False) then Gallery
      else if (case is_video post of Present b \<Rightarrow> b | Missing \<Rightarrow> False) then Video
      else if poll_data post \<noteq> Missing then Poll
      else if crosspost_parent post \<noteq> Missing then Crosspost
      else if is_self post then TextPost
      else Link)"

text \<open>
  \<open>d.get("reddit_video", {}).get("fallback_url", None)\<close> on the media dictionary; on
  \<open>None\<close> the call of \<open>get\<close> raises \<open>AttributeError\<close>.
\<close>

definition fallback_url :: "(str \<rightharpoonup> (str \<rightharpoonup> str)) option \<Rightarrow> exn + str option" where
  "fallback_url m =
     (case m of
        None \<Rightarrow> Inl (AttributeError ''get'')
      | Some d \<Rightarrow>
          Inr ((case d (lit ''reddit_video'') of None \<Rightarrow> Map.empty | Some v \<Rightarrow> v)
                 (lit ''fallback_url'')))"

definition get_video_url :: "submission \<Rightarrow> exn + str option" where
  "get_video_url post =
     (case media post of
        Present m \<Rightarrow> fallback_url m
      | Missing \<Rightarrow>
          (case secure_media post of
             Present m \<Rightarrow> fallback_url m
           | Missing \<Rightarrow> Inr None))"

text \<open>
  The loop of \<open>RedditExplorer._retrieve_hot_posts\<close> over the submissions that
  \<open>hot(limit=limit)\<close> yields, with \<open>posts\<close> as collected so far.
\<close>

fun hot_posts_loop ::
  "(str \<Rightarrow> str) \<Rightarrow> submission list \<Rightarrow> reddit_post list \<Rightarrow> exn + reddit_post list" where
  "hot_posts_loop lower [] posts = Inr posts"
| "hot_posts_loop lower (post # rest) posts =
     (let post_type = judge_post_type post
      in case (if post_type = Video then get_video_url post else Inr (sub_url post)) of
           Inl e \<Rightarrow> Inl e
         | Inr url \<Rightarrow>
             (case sub_author post of
                None \<Rightarrow> Inl (AttributeError ''name'')
              | Some a \<Rightarrow>
                  if redditor_name a = lit ''AutoModerator'' then hot_posts_loop lower rest posts
                  else if contains (lower (sub_title post)) (lit ''megathread'')
                    then hot_posts_loop lower rest posts
                  else if sub_upvote_ratio post < 7 / 10 then hot_posts_loop lower rest posts
                  else if post_type \<in> set [Gallery, Poll, Crosspost]
                    then hot_posts_loop lower rest posts
                  else hot_posts_loop lower rest
                         (posts @
                          [\<lparr>rp_type = post_type, rp_id = sub_id post, rp_title = sub_title post,
                            rp_url = url, rp_upvotes = sub_ups post, rp_text = sub_selftext post,
                            rp_permalink = lit ''https://www.reddit.com'' @ sub_permalink post,
                            rp_comments = None, rp_summary = None,
                            rp_thumbnail = sub_thumbnail post\<rparr>])))"

text \<open>
  \<open>_retrieve_hot_posts(subreddit, limit)\<close>: \<open>reddit\<close> gives the hot listing of a subreddit,
  of which \<open>hot(limit=limit)\<close> yields the first \<open>limit\<close> submissions.
\<close>

definition retrieve_hot_posts ::
  "(str \<Rightarrow> str) \<Rightarrow> (str \<Rightarrow> submission list) \<Rightarrow> str \<Rightarrow> nat option \<Rightarrow> exn + reddit_post list" where
  "retrieve_hot_posts lower reddit subreddit limit =
     (let limit' = (case limit of None \<Rightarrow> reddit_top_posts_limit | Some n \<Rightarrow> n)
      in hot_posts_loop lower (take limit' (reddit subreddit)) [])"

text \<open>
  A link post as the listing of a subreddit delivers it, and a listing of five: a
  megathread, a post of AutoModerator, the link post, a post with upvote ratio 0.69 and a
  gallery.
\<close>

definition example_submission :: submission where
  "example_submission =
     \<lparr>sub_id = lit ''1abcde'', sub_title = lit ''A new open model'',
      sub_url = Some (lit ''https://example.org/model''), sub_ups = 321,
      sub_selftext = [], sub_thumbnail = lit ''default'',
      sub_permalink = lit ''/r/LocalLLaMA/comments/1abcde/a_new_open_model/'',
      sub_author = Some (Redditor (lit ''alice'')), sub_upvote_ratio = 95 / 100,
      post_hint = Present (lit ''link''), is_gallery = Missing, is_video = Present False,
      poll_data = Missing, crosspost_parent = Missing, is_self = False,
      media = Present None, secure_media = Present None\<rparr>"

definition example_listing :: "submission list" where
  "example_listing =
     [example_submission\<lparr>sub_id := lit ''1aaaaa'', sub_title := lit ''Weekly Megathread'',
                           sub_author := Some (Redditor (lit ''bob''))\<rparr>,
      example_submission\<lparr>sub_id := lit ''1bbbbb'',
                           sub_author := Some (Redditor (lit ''AutoModerator''))\<rparr>,
      example_submission,
      example_submission\<lparr>sub_id := lit ''1ccccc'', sub_upvote_ratio := 69 / 100\<rparr>,
      example_submission\<lparr>sub_id := lit ''1ddddd'', is_gallery := Present True\<rparr>]"

section \<open>Fetching and parsing\<close>



section \<open>Properties of deduplication\<close>

text \<open>
  C2: the result of \<open>_remove_duplicates\<close> holds exactly the candidates that are not in the
  history (each once), so as a set it is the difference of the two and a subset of the
  candidates.
\<close>

theorem remove_duplicates_set_difference:
  "set (remove_duplicates history candidates) = set candidates - set history
   \<and> (x \<in> set (remove_duplicates history candidates)
        \<longleftrightarrow> x \<in> set candidates \<and> x \<notin> set history)
   \<and> set (remove_duplicates history candidates) \<subseteq> set candidates
   \<and> distinct (remove_duplicates history candidates)"
  by (auto simp: remove_duplicates_def)

section \<open>Properties of the string operations\<close>

lemma contains_iff: "contains s sub \<longleftrightarrow> (\<exists>p q. s = p @ sub @ q)"
proof (induction s)
  case Nil
  show ?case by auto
next
  case (Cons c cs)
  show ?case
  proof
    assume "contains (c # cs) sub"
    then consider "prefix sub (c # cs)" | "contains cs sub" by auto
    then show "\<exists>p q. c # cs = p @ sub @ q"
    proof cases
      case 1
      then obtain q where "c # cs = sub @ q" by (auto simp: prefix_def)
      then have "c # cs = [] @ sub @ q" by simp
      then show ?thesis by blast
    next
      case 2
      with Cons obtain p q where "cs = p @ sub @ q" by auto
      then have "c # cs = (c # p) @ sub @ q" by simp
      then show ?thesis by blast
    qed
  next
    assume "\<exists>p q. c # cs = p @ sub @ q"
    then obtain p q where pq: "c # cs = p @ sub @ q" by auto
    show "contains (c # cs) sub"
    proof (cases p)
      case Nil
      with pq have "prefix sub (c # cs)" by (simp add: prefix_def)
      then show ?thesis by simp
    next
      case (Cons a p')
      with pq have "cs = p' @ sub @ q" by simp
      with Cons.IH have "contains cs sub" by blast
      then show ?thesis by simp
    qed
  qed
qed

lemma contains_single: "contains s [c] \<longleftrightarrow> c \<in> set s"
  by (induction s) auto

lemma set_strip_subset: "set (strip s) \<subseteq> set s"
proof -
  have "set (rev (dropWhile isspace (rev t))) \<subseteq> set t" for t
    using set_dropWhileD[of _ isspace "rev t"] by auto
  moreover have "set (dropWhile isspace s) \<subseteq> set s"
    using set_dropWhileD[of _ isspace s] by auto
  ultimately show ?thesis
    unfolding strip_def lstrip_def rstrip_def by blast
qed

lemma length_strip_le: "length (strip s) \<le> length s"
proof -
  have "length (dropWhile isspace t) \<le> length t" for t
    by (rule length_dropWhile_le)
  from this[of s] this[of "rev (dropWhile isspace s)"] show ?thesis
    by (simp add: strip_def lstrip_def rstrip_def)
qed

lemma replace1_removes: "old \<notin> set new \<Longrightarrow> old \<notin> set (replace1 s old new)"
  by (induction s) (auto simp: replace1_def)

lemma set_replace1_subset: "set (replace1 s old new) \<subseteq> set s \<union> set new"
  by (induction s) (auto simp: replace1_def)

lemma length_replace1_single: "length (replace1 s old [c]) = length s"
  by (induction s) (auto simp: replace1_def)

lemma set_join_subset: "set (join sep ps) \<subseteq> set sep \<union> \<Union>(set ` set ps)"
  by (induction sep ps rule: join.induct) auto

lemma splitlines_from_no_linebreak:
  "\<forall>c\<in>set cur. \<not> is_linebreak c
   \<Longrightarrow> \<forall>l\<in>set (splitlines_from cur s). \<forall>c\<in>set l. \<not> is_linebreak c"
proof (induction cur s rule: splitlines_from.induct)
  case (1 cur)
  then show ?case by simp
next
  case (2 cur c cs)
  note cur = \<open>\<forall>c\<in>set cur. \<not> is_linebreak c\<close>
  have nil: "\<forall>c\<in>set ([]::str). \<not> is_linebreak c" by simp
  show ?case
  proof (cases "c = 0x0D")
    case True
    show ?thesis
    proof (cases cs)
      case Nil
      with True cur show ?thesis by simp
    next
      case (Cons d ds)
      show ?thesis
      proof (cases "d = 0x0A")
        case d: True
        from "2.IH"(1)[OF True Cons d nil]
        have "\<forall>l\<in>set (splitlines_from [] ds). \<forall>c\<in>set l. \<not> is_linebreak c" .
        moreover have "splitlines_from cur (c # cs) = cur # splitlines_from [] ds"
          using True Cons d by simp
        ultimately show ?thesis using cur by simp
      next
        case d: False
        from "2.IH"(2)[OF True Cons d nil]
        have "\<forall>l\<in>set (splitlines_from [] cs). \<forall>c\<in>set l. \<not> is_linebreak c" .
        moreover have "splitlines_from cur (c # cs) = cur # splitlines_from [] cs"
          using True Cons d by simp
        ultimately show ?thesis using cur by simp
      qed
    qed
  next
    case False
    show ?thesis
    proof (cases "is_linebreak c")
      case lb: True
      from "2.IH"(3)[OF False lb nil]
      have "\<forall>l\<in>set (splitlines_from [] cs). \<forall>c\<in>set l. \<not> is_linebreak c" .
      moreover have "splitlines_from cur (c # cs) = cur # splitlines_from [] cs"
        using False lb by simp
      ultimately show ?thesis using cur by simp
    next
      case lb: False
      have "\<forall>x\<in>set (cur @ [c]). \<not> is_linebreak x" using cur lb by simp
      from "2.IH"(4)[OF False lb this]
      have "\<forall>l\<in>set (splitlines_from (cur @ [c]) cs). \<forall>c\<in>set l. \<not> is_linebreak c" .
      moreover have "splitlines_from cur (c # cs) = splitlines_from (cur @ [c]) cs"
        using False lb by simp
      ultimately show ?thesis by simp
    qed
  qed
qed

lemma splitlines_no_linebreak:
  "l \<in> set (splitlines s) \<Longrightarrow> c \<in> set l \<Longrightarrow> \<not> is_linebreak c"
  using splitlines_from_no_linebreak[of "[]" s] by (auto simp: splitlines_def)

section \<open>Properties of the body-start scan\<close>

lemma scan_start_none:
  "\<forall>l\<in>set ls. \<not> (m \<le> int (length (strip l)) \<and> is_valid_body_line lower (strip l) 100)
   \<Longrightarrow> scan_start lower m i ls = 0"
  by (induction ls arbitrary: i) (auto simp: Let_def)

lemma scan_start_found:
  "\<exists>l\<in>set ls. m \<le> int (length (strip l)) \<and> is_valid_body_line lower (strip l) 100
   \<Longrightarrow> \<exists>k<length ls. scan_start lower m i ls = i + k
         \<and> (m \<le> int (length (strip (ls ! k))) \<and> is_valid_body_line lower (strip (ls ! k)) 100)
         \<and> (\<forall>j<k. \<not> (m \<le> int (length (strip (ls ! j)))
                      \<and> is_valid_body_line lower (strip (ls ! j)) 100))"
proof (induction ls arbitrary: i)
  case Nil
  then show ?case by simp
next
  case (Cons l ls)
  let ?P = "\<lambda>l. m \<le> int (length (strip l)) \<and> is_valid_body_line lower (strip l) 100"
  show ?case
  proof (cases "?P l")
    case True
    then have "scan_start lower m i (l # ls) = i + 0" by (simp add: Let_def)
    with True show ?thesis by (intro exI[of _ 0]) simp
  next
    case False
    with Cons.prems have "\<exists>l\<in>set ls. ?P l" by auto
    from Cons.IH[OF this, of "Suc i"] obtain k where k: "k < length ls"
      "scan_start lower m (Suc i) ls = Suc i + k" "?P (ls ! k)" "\<forall>j<k. \<not> ?P (ls ! j)"
      by blast
    from False have "scan_start lower m i (l # ls) = scan_start lower m (Suc i) ls"
      by (auto simp: Let_def)
    with k have 1: "scan_start lower m i (l # ls) = i + Suc k" by simp
    have 2: "\<forall>j<Suc k. \<not> ?P ((l # ls) ! j)"
      using False k(4) by (auto simp: nth_Cons split: nat.splits)
    show ?thesis
      using k(1,3) 1 2 by (intro exI[of _ "Suc k"]) simp
  qed
qed


lemma example_sentence_strip: "strip example_sentence = example_sentence"
  by (simp add: example_sentence_def lit_def strip_def lstrip_def rstrip_def isspace_def)

lemma example_sentence_length: "length example_sentence = 107"
  by (simp add: example_sentence_def lit_def)

lemma example_sentence_valid: "is_valid_body_line ascii_lower example_sentence 100"
  by (simp add: is_valid_body_line_def example_sentence_def lit_def ascii_lower_def
      body_line_keywords_def)

lemma example_title_strip: "strip example_title = example_title"
  by (simp add: example_title_def lit_def strip_def lstrip_def rstrip_def isspace_def)

lemma example_title_length: "length example_title = 48"
  by (simp add: example_title_def lit_def)

lemma example_title_invalid: "\<not> is_valid_body_line ascii_lower example_title 100"
  by (simp add: is_valid_body_line_def example_title_length)

text \<open>
  C1, as the code has it: \<open>_is_valid_body_line\<close> accepts exactly the lines without \<open>@\<close>,
  without a keyword in their lowercased text, of at least the minimum length and with a
  full stop. The scan returns the index of the first line whose stripped text has at
  least \<open>min_line_length\<close> characters and is accepted with minimum length 100; it returns
  0 when no line is.
\<close>

theorem body_start_scan:
  "(is_valid_body_line lower l n \<longleftrightarrow>
      \<not> contains l (lit ''@'')
      \<and> (\<forall>kw\<in>set body_line_keywords. \<not> contains (lower l) kw)
      \<and> n \<le> int (length l)
      \<and> contains l (lit ''.''))
   \<and> (let qualifies = (\<lambda>line. m \<le> int (length (strip line))
                                \<and> is_valid_body_line lower (strip line) 100);
           k = scan_start lower m 0 lines
       in if \<exists>line\<in>set lines. qualifies line
          then k < length lines \<and> qualifies (lines ! k) \<and> (\<forall>j<k. \<not> qualifies (lines ! j))
          else k = 0)"
proof -
  have "is_valid_body_line lower l n \<longleftrightarrow>
      \<not> contains l (lit ''@'')
      \<and> (\<forall>kw\<in>set body_line_keywords. \<not> contains (lower l) kw)
      \<and> n \<le> int (length l)
      \<and> contains l (lit ''.'')"
    by (auto simp: is_valid_body_line_def list_ex_iff)
  moreover have "scan_start lower m 0 lines = 0"
    if "\<not> (\<exists>line\<in>set lines. m \<le> int (length (strip line))
                               \<and> is_valid_body_line lower (strip line) 100)"
    using that scan_start_none[of lines m lower 0] by blast
  moreover have "\<exists>k<length lines. scan_start lower m 0 lines = k
         \<and> (m \<le> int (length (strip (lines ! k)))
            \<and> is_valid_body_line lower (strip (lines ! k)) 100)
         \<and> (\<forall>j<k. \<not> (m \<le> int (length (strip (lines ! j)))
                      \<and> is_valid_body_line lower (strip (lines ! j)) 100))"
    if "\<exists>line\<in>set lines. m \<le> int (length (strip line))
                               \<and> is_valid_body_line lower (strip line) 100"
    using scan_start_found[OF that, of 0] by simp
  ultimately show ?thesis
    unfolding Let_def
    by (cases "\<exists>line\<in>set lines. m \<le> int (length (strip line))
                               \<and> is_valid_body_line lower (strip line) 100")
       (simp_all only: if_True if_False, blast+)
qed

theorem body_start_scan_witness:
  "(\<exists>line\<in>set [example_title, example_sentence].
       40 \<le> int (length (strip line)) \<and> is_valid_body_line ascii_lower (strip line) 100)
   \<and> scan_start ascii_lower 40 0 [example_title, example_sentence] < 2
   \<and> is_valid_body_line ascii_lower
        (strip ([example_title, example_sentence]
                  ! scan_start ascii_lower 40 0 [example_title, example_sentence])) 100
   \<and> \<not> is_valid_body_line ascii_lower (strip example_title) 100"
proof -
  have q: "\<exists>line\<in>set [example_title, example_sentence].
       40 \<le> int (length (strip line)) \<and> is_valid_body_line ascii_lower (strip line) 100"
    by (simp add: example_sentence_strip example_sentence_length example_sentence_valid)
  have t: "\<not> is_valid_body_line ascii_lower (strip example_title) 100"
    by (simp add: example_title_strip example_title_invalid)
  from q t show ?thesis
    using body_start_scan[of ascii_lower example_sentence 100 40
        "[example_title, example_sentence]"]
    unfolding Let_def by simp
qed

text \<open>
  C1 as stated fails: the sentence has 107 characters, no \<open>@\<close>, a full stop and no
  keyword, the predicate accepts it, and the scan over the title and the sentence
  starts the body at index 1.
\<close>

theorem body_start_scan_counterexample:
  "length example_sentence \<ge> 100
   \<and> \<not> contains example_sentence (lit ''@'')
   \<and> contains example_sentence (lit ''.'')
   \<and> \<not> list_ex (\<lambda>kw. contains (ascii_lower example_sentence) kw) body_line_keywords
   \<and> is_valid_body_line ascii_lower example_sentence 100
   \<and> scan_start ascii_lower 40 0 [example_title, example_sentence] = 1"
proof -
  have "\<not> contains example_sentence (lit ''@'')"
    by (simp add: example_sentence_def lit_def)
  moreover have "contains example_sentence (lit ''.'')"
    by (simp add: example_sentence_def lit_def)
  moreover have "\<not> list_ex (\<lambda>kw. contains (ascii_lower example_sentence) kw) body_line_keywords"
    by (simp add: example_sentence_def lit_def ascii_lower_def body_line_keywords_def)
  moreover have "scan_start ascii_lower 40 0 [example_title, example_sentence] = 1"
    by (simp add: example_title_strip example_title_length example_title_invalid
        example_sentence_strip example_sentence_length example_sentence_valid)
  ultimately show ?thesis
    by (simp add: example_sentence_length example_sentence_valid)
qed

section \<open>Properties of the extracted text\<close>

lemma filtered_lines_map_filter:
  "filtered_lines m ls =
     map (\<lambda>l. strip (replace1 (strip l) 0xC2 (lit '' '')))
       (filter (\<lambda>l. m \<le> int (length (strip l))) ls)"
  by (induction ls) auto



lemma example_mojibake_full_text:
  "full_text example_mojibake_soup = [0xC2, 0xA0] @ lit ''Results are reported in the next table''"
  by (simp add: full_text_def example_mojibake_soup_def get_text_def lit_def removed_tags_def
      strip_def lstrip_def rstrip_def isspace_def)

lemma example_mojibake_lines:
  "splitlines (full_text example_mojibake_soup) =
     [[0xC2, 0xA0] @ lit ''Results are reported in the next table'']"
  by (simp add: example_mojibake_full_text splitlines_def lit_def is_linebreak_def)

lemma example_mojibake_strip:
  "strip ([0xC2, 0xA0] @ lit ''Results are reported in the next table'') =
     [0xC2, 0xA0] @ lit ''Results are reported in the next table''"
  by (simp add: lit_def strip_def lstrip_def rstrip_def isspace_def)

lemma example_mojibake_clean:
  "strip (replace1 ([0xC2, 0xA0] @ lit ''Results are reported in the next table'') 0xC2 (lit '' ''))
     = lit ''Results are reported in the next table''"
  by (simp add: lit_def replace1_def strip_def lstrip_def rstrip_def isspace_def)

lemma is_valid_body_line_short:
  "int (length l) < n \<Longrightarrow> \<not> is_valid_body_line lower l n"
  by (simp add: is_valid_body_line_def)

lemma example_mojibake_outs:
  "filtered_lines 40 (body_lines ascii_lower 40 (splitlines (full_text example_mojibake_soup)))
     = [lit ''Results are reported in the next table'']"
proof -
  let ?line = "[0xC2, 0xA0] @ lit ''Results are reported in the next table''"
  have len: "length ?line = 40"
    by (simp add: lit_def)
  then have "\<not> is_valid_body_line ascii_lower ?line 100"
    by (intro is_valid_body_line_short) simp
  then have "scan_start ascii_lower 40 0 [?line] = 0"
    using len by (simp add: example_mojibake_strip Let_def del: append.simps)
  then show ?thesis
    unfolding example_mojibake_lines body_lines_def
    using len by (simp add: example_mojibake_strip example_mojibake_clean del: append.simps)
qed

text \<open>
  C4, as the code has it: the output is the kept lines joined by newlines. Every kept
  line comes from a line of the page whose stripped text has at least \<open>min_line_length\<close>
  characters: it is that text with every U+00C2 replaced by a space and stripped again,
  so it is no longer than the text it comes from, holds no line boundary and no U+00C2.
  The output as a whole holds no U+00C2.
\<close>

theorem extracted_lines:
  "(let lines = splitlines (full_text soup);
        outs = filtered_lines m (body_lines lower m lines)
    in extract_body_text lower soup m = join (lit [CHR 0x0A]) outs
       \<and> (\<forall>out\<in>set outs.
             0xC2 \<notin> set out
             \<and> (\<forall>c\<in>set out. \<not> is_linebreak c)
             \<and> (\<exists>line\<in>set lines.
                   m \<le> int (length (strip line))
                   \<and> out = strip (replace1 (strip line) 0xC2 (lit '' ''))
                   \<and> length out \<le> length (strip line))))
   \<and> 0xC2 \<notin> set (extract_body_text lower soup m)"
proof -
  define lines where "lines = splitlines (full_text soup)"
  define outs where "outs = filtered_lines m (body_lines lower m lines)"
  have ex: "extract_body_text lower soup m = join (lit [CHR 0x0A]) outs"
    by (simp add: extract_body_text_def lines_def outs_def)
  have sp: "lit '' '' = [0x20]" by (simp add: lit_def)
  have each: "0xC2 \<notin> set out
             \<and> (\<forall>c\<in>set out. \<not> is_linebreak c)
             \<and> (\<exists>line\<in>set lines.
                   m \<le> int (length (strip line))
                   \<and> out = strip (replace1 (strip line) 0xC2 (lit '' ''))
                   \<and> length out \<le> length (strip line))" if "out \<in> set outs" for out
  proof -
    from that obtain line where l: "line \<in> set (body_lines lower m lines)"
      "m \<le> int (length (strip line))" "out = strip (replace1 (strip line) 0xC2 (lit '' ''))"
      by (auto simp: outs_def filtered_lines_map_filter)
    from l(1) have lin: "line \<in> set lines"
      by (auto simp: body_lines_def dest: in_set_dropD)
    have "0xC2 \<notin> set (replace1 (strip line) 0xC2 (lit '' ''))"
      by (rule replace1_removes) (simp add: sp)
    with set_strip_subset have no: "0xC2 \<notin> set out" unfolding l(3) by blast
    have "\<not> is_linebreak c" if "c \<in> set out" for c
    proof -
      from that set_strip_subset have "c \<in> set (replace1 (strip line) 0xC2 (lit '' ''))"
        unfolding l(3) by blast
      with set_replace1_subset have "c \<in> set (strip line) \<or> c = 0x20"
        by (fastforce simp: sp)
      then show ?thesis
      proof
        assume "c \<in> set (strip line)"
        with set_strip_subset have "c \<in> set line" by blast
        with lin show ?thesis unfolding lines_def by (rule splitlines_no_linebreak)
      next
        assume "c = 0x20"
        then show ?thesis by (simp add: is_linebreak_def)
      qed
    qed
    moreover have "length out \<le> length (strip line)"
      unfolding l(3) sp using length_strip_le[of "replace1 (strip line) 0xC2 [0x20]"]
      by (simp add: length_replace1_single)
    ultimately show ?thesis using no l(2,3) lin by blast
  qed
  have "0xC2 \<notin> set (join (lit [CHR 0x0A]) outs)"
  proof
    assume "0xC2 \<in> set (join (lit [CHR 0x0A]) outs)"
    with set_join_subset[of "lit [CHR 0x0A]" outs]
    have "0xC2 \<in> set (lit [CHR 0x0A]) \<or> (\<exists>out\<in>set outs. 0xC2 \<in> set out)" by auto
    then show False using each by (auto simp: lit_def)
  qed
  with ex each show ?thesis
    unfolding Let_def lines_def[symmetric] outs_def[symmetric] by simp
qed

theorem extracted_lines_witness:
  "filtered_lines 40 (body_lines ascii_lower 40 (splitlines (full_text example_mojibake_soup)))
     = [lit ''Results are reported in the next table'']
   \<and> 0xC2 \<in> set (full_text example_mojibake_soup)
   \<and> 0xC2 \<notin> set (lit ''Results are reported in the next table'')
   \<and> 0xC2 \<notin> set (extract_body_text ascii_lower example_mojibake_soup 40)"
  using extracted_lines[of example_mojibake_soup 40 ascii_lower]
  unfolding Let_def example_mojibake_outs
  by (simp add: example_mojibake_full_text)

text \<open>
  C4 as stated fails: the paragraph has 40 characters and is kept; with its leading
  U+00C2 turned into a space and stripped together with the no-break space, the line
  that reaches the output has 38 characters.
\<close>

theorem extracted_lines_counterexample:
  "extract_body_text ascii_lower example_mojibake_soup 40
     = lit ''Results are reported in the next table''
   \<and> length (extract_body_text ascii_lower example_mojibake_soup 40) = 38
   \<and> \<not> 40 \<le> length (extract_body_text ascii_lower example_mojibake_soup 40)"
proof -
  have "extract_body_text ascii_lower example_mojibake_soup 40
     = lit ''Results are reported in the next table''"
    unfolding extract_body_text_def Let_def example_mojibake_outs by simp
  then show ?thesis by (simp add: lit_def)
qed









section \<open>Properties of the identifier history\<close>

lemma universal_newlines_id: "0x0D \<notin> set s \<Longrightarrow> universal_newlines s = s"
  by (induction s) auto

lemma splitlines_from_append:
  "\<forall>c\<in>set w. \<not> is_linebreak c
   \<Longrightarrow> splitlines_from cur (w @ rest) = splitlines_from (cur @ w) rest"
proof (induction w arbitrary: cur)
  case Nil
  then show ?case by simp
next
  case (Cons c w)
  then have c: "\<not> is_linebreak c" "c \<noteq> 0x0D" by (auto simp: is_linebreak_def)
  from Cons have "splitlines_from (cur @ [c]) (w @ rest) = splitlines_from ((cur @ [c]) @ w) rest"
    by simp
  with c show ?case by simp
qed

lemma splitlines_from_newline:
  "splitlines_from cur (0x0A # rest) = cur # splitlines_from [] rest"
  by (simp add: is_linebreak_def)

lemma splitlines_join:
  "\<forall>l\<in>set ls. \<forall>c\<in>set l. \<not> is_linebreak c \<Longrightarrow> ls \<noteq> [] \<longrightarrow> last ls \<noteq> []
   \<Longrightarrow> splitlines (join [0x0A] ls) = ls"
proof (induction "[0x0A::nat]" ls rule: join.induct)
  case 1
  then show ?case by (simp add: splitlines_def)
next
  case (2 p)
  then have "splitlines_from [] (p @ []) = splitlines_from ([] @ p) []"
    by (intro splitlines_from_append) simp
  with 2 show ?case by (simp add: splitlines_def)
next
  case (3 p q ps)
  then have "splitlines_from [] (p @ (0x0A # join [0x0A] (q # ps)))
             = splitlines_from ([] @ p) (0x0A # join [0x0A] (q # ps))"
    by (intro splitlines_from_append) simp
  also have "\<dots> = p # splitlines_from [] (join [0x0A] (q # ps))"
    by (simp add: is_linebreak_def)
  finally show ?case using 3 by (simp add: splitlines_def)
qed

lemma set_join_newline:
  "set (join [0x0A] ls) \<subseteq> {0x0A} \<union> \<Union>(set ` set ls)"
  using set_join_subset[of "[0x0A]" ls] by simp

lemma read_back_joined:
  assumes "\<forall>l\<in>set ls. \<forall>c\<in>set l. \<not> is_linebreak c" and "ls \<noteq> [] \<longrightarrow> last ls \<noteq> []"
  shows "splitlines (universal_newlines (join (lit [CHR 0x0A]) ls)) = ls"
proof -
  have nl: "lit [CHR 0x0A] = [0x0A]" by (simp add: lit_def)
  have "0x0D \<notin> set (join [0x0A] ls)"
  proof
    assume "0x0D \<in> set (join [0x0A] ls)"
    with set_join_newline[of ls] obtain l where "l \<in> set ls" "0x0D \<in> set l" by auto
    with assms(1) show False by (auto simp: is_linebreak_def)
  qed
  then show ?thesis
    unfolding nl using splitlines_join[OF assms] by (simp add: universal_newlines_id)
qed

lemma load_days_eq:
  "load_days environ today files days acc =
     Inr (acc @ concat (map (\<lambda>i. case files (last_n_arxiv_ids_path environ today i) of
                                   None \<Rightarrow> []
                                 | Some content \<Rightarrow> splitlines (universal_newlines content))
                          days))"
  by (induction days arbitrary: acc) (auto simp: read_text_def split: option.splits)

lemma load_old_arxiv_ids_eq:
  "load_old_arxiv_ids environ today files =
     Inr (concat (map (\<lambda>i. case files (last_n_arxiv_ids_path environ today i) of
                             None \<Rightarrow> []
                           | Some content \<Rightarrow> splitlines (universal_newlines content))
                    [1..<8]))"
  by (simp only: load_old_arxiv_ids_def load_days_eq append_Nil)

lemma set_concat_map_member: "k \<in> set ks \<Longrightarrow> set (f k) \<subseteq> set (concat (map f ks))"
  by auto

lemma example_key_today: "arxiv_ids_key 738886 = lit ''paper_summarizer/arxiv_ids-2024-01-01.txt''"
  by (simp add: arxiv_ids_key_def strftime_ymd_def ord2ymd_def Let_def
      days_before_month_def days_in_month_def digit_def lit_def)

lemma upt_1_8: "[1..<8] = [1, 2, 3, 4, 5, 6, 7::nat]"
  by code_simp

lemma example_keys_before:
  "map (\<lambda>i. arxiv_ids_key (738887 - int i)) [1..<8] =
     [lit ''paper_summarizer/arxiv_ids-2024-01-01.txt'',
      lit ''paper_summarizer/arxiv_ids-2023-12-31.txt'',
      lit ''paper_summarizer/arxiv_ids-2023-12-30.txt'',
      lit ''paper_summarizer/arxiv_ids-2023-12-29.txt'',
      lit ''paper_summarizer/arxiv_ids-2023-12-28.txt'',
      lit ''paper_summarizer/arxiv_ids-2023-12-27.txt'',
      lit ''paper_summarizer/arxiv_ids-2023-12-26.txt'']"
  unfolding upt_1_8
  by (simp add: arxiv_ids_key_def strftime_ymd_def ord2ymd_def Let_def
      days_before_month_def days_in_month_def digit_def lit_def)

lemma example_load_next_day:
  "load_old_arxiv_ids Map.empty 738887 (save_arxiv_ids Map.empty 738886 Map.empty ids)
     = Inr (splitlines (universal_newlines (join [0x0A] ids)))"
proof -
  have "map (\<lambda>i. case save_arxiv_ids Map.empty 738886 Map.empty ids
                      (path_join (output_dir Map.empty) (arxiv_ids_key (738887 - int i))) of
               None \<Rightarrow> []
             | Some content \<Rightarrow> splitlines (universal_newlines content)) [1..<8]
        = map (\<lambda>key. case save_arxiv_ids Map.empty 738886 Map.empty ids
                      (path_join (output_dir Map.empty) key) of
               None \<Rightarrow> []
             | Some content \<Rightarrow> splitlines (universal_newlines content))
            (map (\<lambda>i. arxiv_ids_key (738887 - int i)) [1..<8])"
    by (simp only: map_map comp_def)
  also have "\<dots> = [splitlines (universal_newlines (join [0x0A] ids)), [], [], [], [], [], []]"
    unfolding example_keys_before
    by (simp add: save_arxiv_ids_def write_text_def example_key_today output_dir_def
        path_join_def lit_def)
  finally show ?thesis
    unfolding load_old_arxiv_ids_eq last_n_arxiv_ids_path_def by simp
qed

text \<open>
  C6: \<open>_load_old_arxiv_ids\<close> never raises in this model and returns, for the seven days
  before today in turn, the lines of the identifier file of that day where the file is
  present and nothing where it is absent; with none of the seven files present the result
  is empty.
\<close>

theorem load_old_arxiv_ids_result:
  "load_old_arxiv_ids environ today files =
     Inr (concat (map (\<lambda>i. case files (path_join (output_dir environ)
                                         (arxiv_ids_key (today - int i))) of
                             None \<Rightarrow> []
                           | Some content \<Rightarrow> splitlines (universal_newlines content))
                    [1..<8]))
   \<and> ((\<forall>i\<in>{1..7}. files (path_join (output_dir environ) (arxiv_ids_key (today - int i))) = None)
        \<longrightarrow> load_old_arxiv_ids environ today files = Inr [])"
proof -
  have eq: "load_old_arxiv_ids environ today files =
     Inr (concat (map (\<lambda>i. case files (path_join (output_dir environ)
                                         (arxiv_ids_key (today - int i))) of
                             None \<Rightarrow> []
                           | Some content \<Rightarrow> splitlines (universal_newlines content))
                    [1..<8]))"
    using load_old_arxiv_ids_eq[of environ today files]
    by (simp only: last_n_arxiv_ids_path_def)
  have "load_old_arxiv_ids environ today files = Inr []"
    if "\<forall>i\<in>{1..7}. files (path_join (output_dir environ) (arxiv_ids_key (today - int i))) = None"
  proof -
    have "(case files (path_join (output_dir environ) (arxiv_ids_key (today - int i))) of
             None \<Rightarrow> []
           | Some content \<Rightarrow> splitlines (universal_newlines content)) = []"
      if "i \<in> set [1..<8]" for i
      using that \<open>\<forall>i\<in>{1..7}. _\<close> by (auto split: option.splits)
    then have "concat (map (\<lambda>i. case files (path_join (output_dir environ)
                                         (arxiv_ids_key (today - int i))) of
                             None \<Rightarrow> []
                           | Some content \<Rightarrow> splitlines (universal_newlines content))
                    [1..<8]) = []"
      by (simp only: concat_eq_Nil_conv set_map) blast
    with eq show ?thesis by simp
  qed
  with eq show ?thesis by blast
qed

theorem load_old_arxiv_ids_result_witness:
  "load_old_arxiv_ids Map.empty 738886 Map.empty = Inr []"
  using load_old_arxiv_ids_result[of Map.empty 738886 Map.empty] by simp

text \<open>
  C3, as the code has it: identifiers saved on day \<open>D\<close> are all among those loaded on any
  of the seven following days, provided that no identifier holds a line boundary and the
  last identifier is not the empty string.
\<close>

theorem persisted_ids_surface:
  assumes "1 \<le> k" and "k \<le> 7"
    and "\<forall>ident\<in>set ids. \<forall>c\<in>set ident. \<not> is_linebreak c"
    and "ids \<noteq> [] \<longrightarrow> last ids \<noteq> []"
  shows "\<exists>loaded.
           load_old_arxiv_ids environ (D + int k) (save_arxiv_ids environ D files ids) = Inr loaded
           \<and> set ids \<subseteq> set loaded"
proof -
  define saved where "saved = save_arxiv_ids environ D files ids"
  define day where "day = (\<lambda>i. case saved (last_n_arxiv_ids_path environ (D + int k) i) of
                     None \<Rightarrow> []
                   | Some content \<Rightarrow> splitlines (universal_newlines content))"
  have "last_n_arxiv_ids_path environ (D + int k) k
          = path_join (output_dir environ) (arxiv_ids_key D)"
    by (simp add: last_n_arxiv_ids_path_def)
  then have "saved (last_n_arxiv_ids_path environ (D + int k) k)
          = Some (join (lit [CHR 0x0A]) ids)"
    by (simp add: saved_def save_arxiv_ids_def write_text_def)
  then have "day k = splitlines (universal_newlines (join (lit [CHR 0x0A]) ids))"
    by (simp add: day_def)
  then have dayk: "day k = ids"
    using read_back_joined[OF assms(3,4)] by simp
  have "k \<in> set [1..<8]" using assms(1,2) by simp
  from set_concat_map_member[OF this, of day] dayk
  have sub: "set ids \<subseteq> set (concat (map day [1..<8]))" by simp
  have "load_old_arxiv_ids environ (D + int k) saved = Inr (concat (map day [1..<8]))"
    unfolding day_def by (rule load_old_arxiv_ids_eq)
  with sub show ?thesis unfolding saved_def by blast
qed

theorem persisted_ids_surface_witness:
  "load_old_arxiv_ids Map.empty 738887
     (save_arxiv_ids Map.empty 738886 Map.empty [lit ''2401.00001'', lit ''2401.00002''])
     = Inr [lit ''2401.00001'', lit ''2401.00002'']
   \<and> \<not> list_ex is_linebreak (lit ''2401.00001'' @ lit ''2401.00002'')"
proof -
  have h: "\<forall>ident\<in>set [lit ''2401.00001'', lit ''2401.00002'']. \<forall>c\<in>set ident. \<not> is_linebreak c"
    by (simp add: lit_def is_linebreak_def)
  have l: "[lit ''2401.00001'', lit ''2401.00002''] \<noteq> []
             \<longrightarrow> last [lit ''2401.00001'', lit ''2401.00002''] \<noteq> []"
    by (simp add: lit_def)
  from persisted_ids_surface[of 1, OF _ _ h l, of Map.empty 738886 Map.empty]
  obtain loaded where
    "load_old_arxiv_ids Map.empty (738886 + int 1)
       (save_arxiv_ids Map.empty 738886 Map.empty [lit ''2401.00001'', lit ''2401.00002''])
       = Inr loaded"
    "set [lit ''2401.00001'', lit ''2401.00002''] \<subseteq> set loaded"
    by auto
  moreover have "load_old_arxiv_ids Map.empty 738887
     (save_arxiv_ids Map.empty 738886 Map.empty [lit ''2401.00001'', lit ''2401.00002''])
     = Inr [lit ''2401.00001'', lit ''2401.00002'']"
    unfolding example_load_next_day by (simp add: lit_def splitlines_def is_linebreak_def)
  moreover have "\<not> list_ex is_linebreak (lit ''2401.00001'' @ lit ''2401.00002'')"
    by (simp add: lit_def is_linebreak_def)
  ultimately show ?thesis by simp
qed

text \<open>
  C3 as stated fails: an identifier with a trailing newline (the pattern of
  \<open>PaperIdRetriever\<close> ends in \<open>$\<close>, which also matches before a final newline) is saved,
  and the next day the history holds the identifier without the newline, not the one saved.
\<close>

theorem persisted_ids_surface_counterexample:
  "load_old_arxiv_ids Map.empty 738887
     (save_arxiv_ids Map.empty 738886 Map.empty [lit ''2401.00001'' @ [0x0A]])
     = Inr [lit ''2401.00001'']
   \<and> lit ''2401.00001'' @ [0x0A] \<notin> set [lit ''2401.00001'']"
  unfolding example_load_next_day by (simp add: lit_def splitlines_def is_linebreak_def)

section \<open>Properties of the digest writers\<close>

lemma example_summary_key:
  "path_join (output_dir Map.empty) (paper_summary_key 738886)
     = lit ''./output/paper_summarizer/2024-01-01.md''"
  by (simp add: paper_summary_key_def strftime_ymd_def ord2ymd_def Let_def output_dir_def
      path_join_def days_before_month_def days_in_month_def digit_def lit_def)

lemma join_concat: "join sep (p # ps) = p @ concat (map (\<lambda>q. sep @ q) ps)"
  by (induction ps arbitrary: p) auto

lemma example_reddit_summary_key:
  "path_join (output_dir Map.empty) (reddit_summary_key 738886)
     = lit ''./output/reddit_explorer/2024-01-01.md''"
  by (simp add: reddit_summary_key_def strftime_ymd_def ord2ymd_def Let_def output_dir_def
      path_join_def days_before_month_def days_in_month_def digit_def lit_def)

lemma example_paper_digest:
  "paper_store_summaries Map.empty 738886 files [lit ''A'', lit ''B'']
     (lit ''./output/paper_summarizer/2024-01-01.md'')
     = Some (lit ''A'' @ [0x0A, 0x0A] @ lit ''---'' @ [0x0A, 0x0A] @ lit ''B'')"
  by (simp add: paper_store_summaries_def write_text_def example_summary_key paper_separator_def)

lemma example_reddit_digest:
  "reddit_store_summaries Map.empty 738886 files [lit ''A'', lit ''B'']
     (lit ''./output/reddit_explorer/2024-01-01.md'')
     = Some (lit ''A'' @ [0x0A] @ lit ''---'' @ [0x0A] @ lit ''B'')"
  by (simp add: reddit_store_summaries_def write_text_def example_reddit_summary_key
      reddit_separator_def)

text \<open>
  C8, as the code has it: each \<open>_store_summaries\<close> changes the file store only at the file
  of the day, whose content becomes the parts joined by the separator of that writer
  (the first part, then every further part after the separator): \<open>\n\n---\n\n\<close> for the
  paper digest and \<open>\n---\n\<close> for the Reddit digest. The separator is not an argument.
  What the file held before does not matter. For the parts \<open>A\<close> and \<open>B\<close> on 2024-01-01
  the files read \<open>A\n\n---\n\nB\<close> and \<open>A\n---\nB\<close>.
\<close>

theorem store_summaries_fixed_separator:
  "paper_store_summaries environ today files parts
     = files(path_join (output_dir environ) (paper_summary_key today)
               \<mapsto> join paper_separator parts)
   \<and> reddit_store_summaries environ today files parts
     = files(path_join (output_dir environ) (reddit_summary_key today)
               \<mapsto> join reddit_separator parts)
   \<and> paper_store_summaries environ today files parts
        (path_join (output_dir environ) (paper_summary_key today))
     = Some (case parts of
               [] \<Rightarrow> []
             | p # ps \<Rightarrow> p @ concat (map (\<lambda>q. [0x0A, 0x0A] @ lit ''---'' @ [0x0A, 0x0A] @ q) ps))
   \<and> reddit_store_summaries environ today files parts
        (path_join (output_dir environ) (reddit_summary_key today))
     = Some (case parts of
               [] \<Rightarrow> []
             | p # ps \<Rightarrow> p @ concat (map (\<lambda>q. [0x0A] @ lit ''---'' @ [0x0A] @ q) ps))
   \<and> paper_store_summaries environ today files parts
        (path_join (output_dir environ) (paper_summary_key today))
     = paper_store_summaries environ today files' parts
        (path_join (output_dir environ) (paper_summary_key today))
   \<and> reddit_store_summaries environ today files parts
        (path_join (output_dir environ) (reddit_summary_key today))
     = reddit_store_summaries environ today files' parts
        (path_join (output_dir environ) (reddit_summary_key today))
   \<and> paper_store_summaries Map.empty 738886
        [lit ''./output/paper_summarizer/2024-01-01.md'' \<mapsto> lit ''old'']
        [lit ''A'', lit ''B''] (lit ''./output/paper_summarizer/2024-01-01.md'')
     = Some (lit ''A'' @ [0x0A, 0x0A] @ lit ''---'' @ [0x0A, 0x0A] @ lit ''B'')
   \<and> reddit_store_summaries Map.empty 738886
        [lit ''./output/reddit_explorer/2024-01-01.md'' \<mapsto> lit ''old'']
        [lit ''A'', lit ''B''] (lit ''./output/reddit_explorer/2024-01-01.md'')
     = Some (lit ''A'' @ [0x0A] @ lit ''---'' @ [0x0A] @ lit ''B'')"
proof -
  have p: "join paper_separator parts
           = (case parts of
               [] \<Rightarrow> []
             | p # ps \<Rightarrow> p @ concat (map (\<lambda>q. [0x0A, 0x0A] @ lit ''---'' @ [0x0A, 0x0A] @ q) ps))"
    by (cases parts) (simp_all add: join_concat paper_separator_def del: append.simps)
  have r: "join reddit_separator parts
           = (case parts of
               [] \<Rightarrow> []
             | p # ps \<Rightarrow> p @ concat (map (\<lambda>q. [0x0A] @ lit ''---'' @ [0x0A] @ q) ps))"
    by (cases parts) (simp_all add: join_concat reddit_separator_def del: append.simps)
  have 1: "paper_store_summaries environ today files parts
     = files(path_join (output_dir environ) (paper_summary_key today)
               \<mapsto> join paper_separator parts)"
    by (simp add: paper_store_summaries_def write_text_def)
  have 2: "reddit_store_summaries environ today files parts
     = files(path_join (output_dir environ) (reddit_summary_key today)
               \<mapsto> join reddit_separator parts)"
    by (simp add: reddit_store_summaries_def write_text_def)
  have 3: "paper_store_summaries environ today f parts
        (path_join (output_dir environ) (paper_summary_key today))
     = Some (join paper_separator parts)" for f
    by (simp add: paper_store_summaries_def write_text_def)
  have 4: "reddit_store_summaries environ today f parts
        (path_join (output_dir environ) (reddit_summary_key today))
     = Some (join reddit_separator parts)" for f
    by (simp add: reddit_store_summaries_def write_text_def)
  show ?thesis
    unfolding 3 4 p[symmetric] r[symmetric]
    using 1 2 example_paper_digest example_reddit_digest by simp
qed

text \<open>
  C8 as stated fails: neither writer can be given the separator \<open>---\<close>, and for the parts
  \<open>A\<close> and \<open>B\<close> neither leaves \<open>A---B\<close> in its file.
\<close>

theorem store_summaries_counterexample:
  "paper_store_summaries Map.empty 738886 Map.empty [lit ''A'', lit ''B'']
     (lit ''./output/paper_summarizer/2024-01-01.md'')
     = Some (lit ''A'' @ [0x0A, 0x0A] @ lit ''---'' @ [0x0A, 0x0A] @ lit ''B'')
   \<and> paper_store_summaries Map.empty 738886 Map.empty [lit ''A'', lit ''B'']
     (lit ''./output/paper_summarizer/2024-01-01.md'') \<noteq> Some (lit ''A---B'')
   \<and> reddit_store_summaries Map.empty 738886 Map.empty [lit ''A'', lit ''B'']
     (lit ''./output/reddit_explorer/2024-01-01.md'')
     = Some (lit ''A'' @ [0x0A] @ lit ''---'' @ [0x0A] @ lit ''B'')
   \<and> reddit_store_summaries Map.empty 738886 Map.empty [lit ''A'', lit ''B'']
     (lit ''./output/reddit_explorer/2024-01-01.md'') \<noteq> Some (lit ''A---B'')"
  unfolding example_paper_digest example_reddit_digest by (simp add: lit_def)

section \<open>Properties of the fan-out\<close>

lemma fold_complete_call:
  "fold (complete_call fn items) schedule futures i =
     (if i \<in> set schedule \<and> i < length items then Some (fn (items ! i)) else futures i)"
  by (induction schedule arbitrary: futures) (auto simp: complete_call_def)

lemma results_in_order_values:
  "\<forall>i\<in>set positions. futures i = Some (Inr (g i))
   \<Longrightarrow> results_in_order futures positions = Some (Inr (map g positions))"
  by (induction positions) auto

text \<open>
  C5: when every submitted call is completed, in whatever order, and the worker returns
  \<open>f x\<close> on every item \<open>x\<close>, the list that \<open>executor.map\<close> delivers is \<open>map f items\<close>: it
  has the length of the input and its \<open>i\<close>-th element is \<open>f\<close> of the \<open>i\<close>-th item.
\<close>

theorem executor_map_in_order:
  assumes "set schedule = {0..<length items}"
    and "\<forall>x\<in>set items. fn x = Inr (f x)"
  shows "executor_map fn items schedule = Some (Inr (map f items))
         \<and> length (map f items) = length items
         \<and> (\<forall>i<length items. map f items ! i = f (items ! i))"
proof -
  have "run_workers fn items schedule i = Some (Inr (f (items ! i)))"
    if "i \<in> set [0..<length items]" for i
  proof -
    from that have i: "i < length items" by simp
    with assms(1) have "i \<in> set schedule" by simp
    with i have "run_workers fn items schedule i = Some (fn (items ! i))"
      by (simp add: run_workers_def fold_complete_call)
    moreover from i assms(2) have "fn (items ! i) = Inr (f (items ! i))" by simp
    ultimately show ?thesis by simp
  qed
  then have "results_in_order (run_workers fn items schedule) [0..<length items]
             = Some (Inr (map (\<lambda>i. f (items ! i)) [0..<length items]))"
    by (intro results_in_order_values) blast
  also have "map (\<lambda>i. f (items ! i)) [0..<length items]
             = map f (map ((!) items) [0..<length items])"
    by (simp only: map_map comp_def)
  also have "\<dots> = map f items"
    by (simp only: map_nth)
  finally show ?thesis by (simp add: executor_map_def)
qed

theorem executor_map_in_order_witness:
  "executor_map (\<lambda>x. Inr (x @ lit ''!'')) [lit ''a'', lit ''b'', lit ''c''] [2, 0, 1]
     = Some (Inr [lit ''a!'', lit ''b!'', lit ''c!''])
   \<and> executor_map (\<lambda>x. Inr (x @ lit ''!'')) [lit ''a'', lit ''b'', lit ''c''] [1, 2, 0]
     = Some (Inr [lit ''a!'', lit ''b!'', lit ''c!''])"
proof -
  have s1: "set [2, 0, 1] = {0..<length [lit ''a'', lit ''b'', lit ''c'']}" by auto
  have s2: "set [1, 2, 0] = {0..<length [lit ''a'', lit ''b'', lit ''c'']}" by auto
  have f: "\<forall>x\<in>set [lit ''a'', lit ''b'', lit ''c'']. (\<lambda>x. Inr (x @ lit ''!'')) x = (Inr ((\<lambda>x. x @ lit ''!'') x) :: exn + str)"
    by simp
  from executor_map_in_order[OF s1 f] executor_map_in_order[OF s2 f]
  show ?thesis by (simp add: lit_def)
qed

section \<open>Properties of the entry points\<close>

text \<open>
  C9 fails on the code: neither module binds \<open>pprint\<close> or \<open>traceback\<close>. The handler of the
  paper summarizer raises \<open>NameError\<close> at its first statement, outside the \<open>try\<close>, for
  every event; the handler of the Reddit explorer returns 200 when the run succeeds, and
  when the run raises, its \<open>except\<close> block raises \<open>NameError\<close> itself instead of
  returning 500.
\<close>

theorem lambda_handler_faults_escape:
  "paper_lambda_handler event run = Inl (NameError ''pprint'')
   \<and> reddit_lambda_handler [lit ''source'' \<mapsto> lit ''aws.events''] (Inl (OtherError ''praw''))
       = Inl (NameError ''traceback'')
   \<and> reddit_lambda_handler [lit ''source'' \<mapsto> lit ''aws.events''] (Inr ()) = Inr 200"
  by (simp add: paper_lambda_handler_def reddit_lambda_handler_def lookup_def
      paper_summarizer_names_def reddit_explorer_names_def builtin_names_def)

section \<open>Properties of the hot posts\<close>

lemma hot_posts_loop_kept:
  "hot_posts_loop lower subs acc = Inr posts
   \<Longrightarrow> \<exists>new. posts = acc @ new \<and> length new \<le> length subs
         \<and> (\<forall>p\<in>set new. \<exists>s\<in>set subs.
               (\<exists>a. sub_author s = Some a \<and> redditor_name a \<noteq> lit ''AutoModerator'')
               \<and> \<not> contains (lower (sub_title s)) (lit ''megathread'')
               \<and> 7 / 10 \<le> sub_upvote_ratio s
               \<and> judge_post_type s \<notin> {Gallery, Poll, Crosspost}
               \<and> rp_type p = judge_post_type s
               \<and> rp_id p = sub_id s
               \<and> rp_title p = sub_title s)"
proof (induction subs arbitrary: acc)
  case Nil
  then show ?case by simp
next
  case (Cons post rest)
  let ?kept = "\<lambda>s p. (\<exists>a. sub_author s = Some a \<and> redditor_name a \<noteq> lit ''AutoModerator'')
               \<and> \<not> contains (lower (sub_title s)) (lit ''megathread'')
               \<and> 7 / 10 \<le> sub_upvote_ratio s
               \<and> judge_post_type s \<notin> {Gallery, Poll, Crosspost}
               \<and> rp_type p = judge_post_type s
               \<and> rp_id p = sub_id s
               \<and> rp_title p = sub_title s"
  from Cons.prems obtain url a where
    url: "(if judge_post_type post = Video then get_video_url post else Inr (sub_url post)) = Inr url"
    and a: "sub_author post = Some a"
    by (auto simp: Let_def split: sum.splits option.splits)
  define built where "built = \<lparr>rp_type = judge_post_type post, rp_id = sub_id post,
      rp_title = sub_title post, rp_url = url, rp_upvotes = sub_ups post,
      rp_text = sub_selftext post,
      rp_permalink = lit ''https://www.reddit.com'' @ sub_permalink post,
      rp_comments = None, rp_summary = None, rp_thumbnail = sub_thumbnail post\<rparr>"
  let ?skip = "redditor_name a = lit ''AutoModerator''
               \<or> contains (lower (sub_title post)) (lit ''megathread'')
               \<or> sub_upvote_ratio post < 7 / 10
               \<or> judge_post_type post \<in> set [Gallery, Poll, Crosspost]"
  show ?case
  proof (cases ?skip)
    case True
    with Cons.prems url a have "hot_posts_loop lower rest acc = Inr posts"
      by (auto simp: Let_def split: if_splits)
    from Cons.IH[OF this] obtain new where new: "posts = acc @ new" "length new \<le> length rest"
      "\<forall>p\<in>set new. \<exists>s\<in>set rest. ?kept s p" by blast
    from new(3) have "\<forall>p\<in>set new. \<exists>s\<in>set (post # rest). ?kept s p" by fastforce
    with new(1,2) show ?thesis by (intro exI[of _ new]) simp
  next
    case False
    with Cons.prems url a have "hot_posts_loop lower rest (acc @ [built]) = Inr posts"
      by (auto simp: Let_def built_def split: if_splits)
    from Cons.IH[OF this] obtain new where new: "posts = (acc @ [built]) @ new"
      "length new \<le> length rest" "\<forall>p\<in>set new. \<exists>s\<in>set rest. ?kept s p" by blast
    have "?kept post built" using False a by (simp add: built_def)
    with new(3) have "\<forall>p\<in>set (built # new). \<exists>s\<in>set (post # rest). ?kept s p" by fastforce
    with new(1,2) show ?thesis by (intro exI[of _ "built # new"]) simp
  qed
qed

lemma example_hot_posts:
  "retrieve_hot_posts ascii_lower (\<lambda>subreddit. example_listing) (lit ''LocalLLaMA'') None =
     Inr [\<lparr>rp_type = Link, rp_id = lit ''1abcde'', rp_title = lit ''A new open model'',
           rp_url = Some (lit ''https://example.org/model''), rp_upvotes = 321, rp_text = [],
           rp_permalink = lit ''https://www.reddit.com''
                          @ lit ''/r/LocalLLaMA/comments/1abcde/a_new_open_model/'',
           rp_comments = None, rp_summary = None, rp_thumbnail = lit ''default''\<rparr>]"
  by (simp add: retrieve_hot_posts_def reddit_top_posts_limit_def example_listing_def
      example_submission_def judge_post_type_def Let_def lit_def ascii_lower_def)

text \<open>
  C10: when \<open>_retrieve_hot_posts\<close> returns, it returns at most \<open>limit\<close> posts (10 when no
  limit is given), and each comes from one of the first \<open>limit\<close> submissions of the hot
  listing, one whose author is not \<open>AutoModerator\<close>, whose lowercased title does not
  contain \<open>megathread\<close>, whose upvote ratio is at least 0.7 and whose type is none of
  gallery, poll and crosspost; the post carries the type, id and title of that submission.
\<close>

theorem retrieve_hot_posts_filtered:
  assumes "retrieve_hot_posts lower reddit subreddit limit = Inr posts"
  shows "length posts \<le> (case limit of None \<Rightarrow> 10 | Some n \<Rightarrow> n)
         \<and> (\<forall>p\<in>set posts.
               \<exists>s\<in>set (take (case limit of None \<Rightarrow> 10 | Some n \<Rightarrow> n) (reddit subreddit)).
                 (\<exists>a. sub_author s = Some a \<and> redditor_name a \<noteq> lit ''AutoModerator'')
                 \<and> \<not> contains (lower (sub_title s)) (lit ''megathread'')
                 \<and> 7 / 10 \<le> sub_upvote_ratio s
                 \<and> judge_post_type s \<notin> {Gallery, Poll, Crosspost}
                 \<and> rp_type p = judge_post_type s
                 \<and> rp_id p = sub_id s
                 \<and> rp_title p = sub_title s)"
proof -
  define n where "n = (case limit of None \<Rightarrow> 10 | Some n \<Rightarrow> (n::nat))"
  from assms have "hot_posts_loop lower (take n (reddit subreddit)) [] = Inr posts"
    by (cases limit) (simp_all add: retrieve_hot_posts_def n_def reddit_top_posts_limit_def)
  from hot_posts_loop_kept[OF this] have
    "length posts \<le> length (take n (reddit subreddit))"
    "\<forall>p\<in>set posts. \<exists>s\<in>set (take n (reddit subreddit)).
                 (\<exists>a. sub_author s = Some a \<and> redditor_name a \<noteq> lit ''AutoModerator'')
                 \<and> \<not> contains (lower (sub_title s)) (lit ''megathread'')
                 \<and> 7 / 10 \<le> sub_upvote_ratio s
                 \<and> judge_post_type s \<notin> {Gallery, Poll, Crosspost}
                 \<and> rp_type p = judge_post_type s
                 \<and> rp_id p = sub_id s
                 \<and> rp_title p = sub_title s"
    by auto
  moreover have "length (take n (reddit subreddit)) \<le> n" by simp
  ultimately show ?thesis unfolding n_def by linarith
qed

theorem retrieve_hot_posts_filtered_witness:
  "(\<exists>posts. retrieve_hot_posts ascii_lower (\<lambda>subreddit. example_listing) (lit ''LocalLLaMA'') None
              = Inr posts
            \<and> length posts = 1 \<and> rp_id (hd posts) = sub_id example_submission)
   \<and> length example_listing = 5"
proof -
  from retrieve_hot_posts_filtered[OF example_hot_posts]
  have "length [\<lparr>rp_type = Link, rp_id = lit ''1abcde'', rp_title = lit ''A new open model'',
           rp_url = Some (lit ''https://example.org/model''), rp_upvotes = 321, rp_text = [],
           rp_permalink = lit ''https://www.reddit.com''
                          @ lit ''/r/LocalLLaMA/comments/1abcde/a_new_open_model/'',
           rp_comments = None, rp_summary = None, rp_thumbnail = lit ''default''\<rparr>] \<le> 10"
    by simp
  then show ?thesis
    unfolding example_hot_posts
    by (simp add: example_submission_def example_listing_def)
qed

end
